theory Spec2Isabelle
  imports Complex_Main "HOL-Library.Sublist"
begin

section \<open>Python strings and values\<close>

text \<open>
  Identifiers and message texts are byte strings. \<open>str.lower\<close> in the C locale maps the
  ASCII letters \<open>A\<close>..\<open>Z\<close> to \<open>a\<close>..\<open>z\<close> and leaves every other byte alone.
\<close>

definition is_upper :: "char \<Rightarrow> bool" where
  "is_upper c = (65 \<le> (of_char c :: nat) \<and> (of_char c :: nat) \<le> 90)"

definition is_lower :: "char \<Rightarrow> bool" where
  "is_lower c = (97 \<le> (of_char c :: nat) \<and> (of_char c :: nat) \<le> 122)"

definition lower_char :: "char \<Rightarrow> char" where
  "lower_char c = (if is_upper c then char_of ((of_char c :: nat) + 32) else c)"

definition upper_char :: "char \<Rightarrow> char" where
  "upper_char c = (if is_lower c then char_of ((of_char c :: nat) - 32) else c)"

definition lower :: "string \<Rightarrow> string" where
  "lower s = map lower_char s"

text \<open>Two characters, and two strings, that differ at most in letter case.\<close>

definition same_letter :: "char \<Rightarrow> char \<Rightarrow> bool" where
  "same_letter a b = (a = b \<or> (is_upper a \<and> b = lower_char a) \<or> (is_lower a \<and> b = upper_char a))"

definition differ_only_in_case :: "string \<Rightarrow> string \<Rightarrow> bool" where
  "differ_only_in_case s t = list_all2 same_letter s t"

text \<open>\<open>s.startswith(p)\<close>, \<open>p in s\<close> on strings, and \<open>s.split('!', 1)[0]\<close>.\<close>

definition startswith :: "string \<Rightarrow> string \<Rightarrow> bool" where
  "startswith s p = (take (length p) s = p)"

fun contains :: "string \<Rightarrow> string \<Rightarrow> bool" where
  "contains p [] = (p = [])"
| "contains p (c # cs) = (startswith (c # cs) p \<or> contains p cs)"

definition split_bang :: "string \<Rightarrow> string" where
  "split_bang u = takeWhile (\<lambda>c. c \<noteq> CHR ''!'') u"

text \<open>
  Truthiness of an optional string (\<open>if user:\<close>): \<open>None\<close> and the empty string are false.
\<close>

definition truthy :: "string option \<Rightarrow> bool" where
  "truthy s = (case s of None \<Rightarrow> False | Some t \<Rightarrow> t \<noteq> [])"

text \<open>
  The values a configuration file can pass for a flag: \<open>None\<close>, booleans, integers, finite
  floats (each one a rational number) and strings. Python's \<open>==\<close> compares numbers by
  value, booleans included, so \<open>True == 1 == 1.0\<close> and \<open>False == 0 == 0.0\<close>; values of
  other kinds are equal only to themselves. \<open>x in (a, b)\<close> is \<open>x == a or x == b\<close>.
\<close>

datatype pyval = PyNone | PyBool bool | PyInt int | PyFloat rat | PyStr string

fun py_num :: "pyval \<Rightarrow> rat option" where
  "py_num (PyBool b) = Some (if b then 1 else 0)"
| "py_num (PyInt i) = Some (of_int i)"
| "py_num (PyFloat r) = Some r"
| "py_num PyNone = None"
| "py_num (PyStr s) = None"

definition py_eq :: "pyval \<Rightarrow> pyval \<Rightarrow> bool" where
  "py_eq x y =
     (case py_num x of
        Some a \<Rightarrow> (case py_num y of Some c \<Rightarrow> a = c | None \<Rightarrow> False)
      | None \<Rightarrow> (case py_num y of Some c \<Rightarrow> False | None \<Rightarrow> x = y))"

definition py_in :: "pyval \<Rightarrow> pyval list \<Rightarrow> bool" where
  "py_in x xs = list_ex (py_eq x) xs"

fun py_truthy :: "pyval \<Rightarrow> bool" where
  "py_truthy PyNone = False"
| "py_truthy (PyBool b) = b"
| "py_truthy (PyInt i) = (i \<noteq> 0)"
| "py_truthy (PyFloat r) = (r \<noteq> 0)"
| "py_truthy (PyStr s) = (s \<noteq> [])"

text \<open>The exceptions that the code raises or lets through.\<close>

datatype error =
    ConfigErrors string pyval
  | RuntimeError string
  | TypeError
  | IndexError

section \<open>The session: \<open>IrcStatusBot\<close>\<close>

text \<open>
  A Contact instance is identified by the identity it was built for and by its serial
  number, the position at which it was registered. The registry is the dictionary
  \<open>contacts\<close>, kept as an association list in insertion order.
\<close>

type_synonym contact_key = "string option \<times> string option"

record Contact =
  c_user :: "string option"
  c_channel :: "string option"
  c_serial :: nat

text \<open>An outbound text is either passed as it is or encoded with \<open>encode('utf-8', 'replace')\<close>.\<close>

datatype payload = Raw string | Utf8_replace string

text \<open>What a session does to the outside: protocol commands, log lines, Contact calls.\<close>

datatype effect =
    Notice string payload
  | Msg string payload
  | Describe string payload
  | Join string "string option"
  | Ping string
  | Log string
  | Subscribe Contact
  | HandleMessage Contact string
  | HandleAction Contact string
  | IRCClient_connectionMade
  | IRCClient_connectionLost

text \<open>A configured channel is a bare name or a dictionary with the keys \<open>channel\<close> and \<open>password\<close>.\<close>

datatype chan_entry = ChanName string | ChanDict "(string \<times> string) list"

text \<open>
  The looping call of the keepalive: \<open>running\<close> and, once started, its interval.
\<close>

record LoopingCall =
  running :: bool
  interval :: "nat option"

record IrcStatusBot =
  nickname :: string
  password :: "string option"
  channels :: "chan_entry list"
  pm_to_nicks :: "string list"
  noticeOnChannel :: bool
  keepAliveCall :: LoopingCall
  contacts :: "(contact_key \<times> Contact) list"
  sent :: "effect list"

definition emit :: "effect \<Rightarrow> IrcStatusBot \<Rightarrow> IrcStatusBot" where
  "emit e b = b\<lparr>sent := sent b @ [e]\<rparr>"

definition IrcStatusBot_init ::
  "string \<Rightarrow> string option \<Rightarrow> chan_entry list \<Rightarrow> string list \<Rightarrow> bool \<Rightarrow> IrcStatusBot" where
  "IrcStatusBot_init nick pw chans pms notice =
     \<lparr>nickname = nick, password = pw, channels = chans, pm_to_nicks = pms,
      noticeOnChannel = notice,
      keepAliveCall = \<lparr>running = False, interval = None\<rparr>,
      contacts = [], sent = []\<rparr>"

subsection \<open>Connection set-up and teardown\<close>

text \<open>
  \<open>LoopingCall.start(60)\<close> marks the call as running and makes its first call at once.
  A session is connected once, on a looping call that is not running; Twisted rejects
  the start of a running one with an assertion, which is left out here.
\<close>

definition connectionMade :: "IrcStatusBot \<Rightarrow> IrcStatusBot" where
  "connectionMade b =
     (let b1 = emit IRCClient_connectionMade b;
          b2 = b1\<lparr>keepAliveCall := \<lparr>running = True, interval = Some 60\<rparr>\<rparr>
      in emit (Ping (nickname b2)) b2)"

definition connectionLost :: "IrcStatusBot \<Rightarrow> IrcStatusBot" where
  "connectionLost b =
     (let b1 = (if running (keepAliveCall b)
                then b\<lparr>keepAliveCall := (keepAliveCall b)\<lparr>running := False\<rparr>\<rparr>
                else b)
      in emit IRCClient_connectionLost b1)"

text \<open>One firing of the looping call, \<open>lambda: self.ping(self.nickname)\<close>, if it is running.\<close>

definition keepAlive_fire :: "IrcStatusBot \<Rightarrow> IrcStatusBot" where
  "keepAlive_fire b = (if running (keepAliveCall b) then emit (Ping (nickname b)) b else b)"

subsection \<open>Outbound operations\<close>

definition groupChat :: "IrcStatusBot \<Rightarrow> string \<Rightarrow> string \<Rightarrow> IrcStatusBot" where
  "groupChat b channel message =
     (if noticeOnChannel b then emit (Notice channel (Utf8_replace message)) b else b)"

definition chat :: "IrcStatusBot \<Rightarrow> string \<Rightarrow> string \<Rightarrow> IrcStatusBot" where
  "chat b user message = emit (Msg user (Utf8_replace message)) b"

definition groupDescribe :: "IrcStatusBot \<Rightarrow> string \<Rightarrow> string \<Rightarrow> IrcStatusBot" where
  "groupDescribe b channel act = emit (Describe channel (Utf8_replace act)) b"

subsection \<open>The contact registry\<close>

text \<open>
  Modelled from the spec: \<open>StatusBot.getContact\<close> of \<open>buildbot.status.words\<close>, which is
  not among the sources. If an entry exists for the key it is returned; otherwise a new
  Contact is constructed, registered, and subscribed to the build-event notifications.
\<close>

definition StatusBot_getContact ::
  "IrcStatusBot \<Rightarrow> string option \<Rightarrow> string option \<Rightarrow> Contact \<times> IrcStatusBot" where
  "StatusBot_getContact b user channel =
     (case map_of (contacts b) (user, channel) of
        Some c \<Rightarrow> (c, b)
      | None \<Rightarrow>
          (let c = \<lparr>c_user = user, c_channel = channel, c_serial = length (contacts b)\<rparr>
           in (c, emit (Subscribe c) (b\<lparr>contacts := contacts b @ [((user, channel), c)]\<rparr>))))"

definition getContact ::
  "IrcStatusBot \<Rightarrow> string option \<Rightarrow> string option \<Rightarrow> Contact \<times> IrcStatusBot" where
  "getContact b user channel =
     (let user' = (if truthy user then map_option lower user else user);
          channel' = (if truthy channel then map_option lower channel else channel)
      in StatusBot_getContact b user' channel')"

subsection \<open>Inbound operations\<close>

text \<open>
  \<open>Contact.handleMessage\<close> and \<open>Contact.handleAction\<close> belong to the Contact abstraction;
  a call is recorded with the Contact and the text handed over.
\<close>

definition privmsg :: "IrcStatusBot \<Rightarrow> string \<Rightarrow> string \<Rightarrow> string \<Rightarrow> IrcStatusBot" where
  "privmsg b user channel message =
     (let user' = split_bang user in
      if channel = nickname b then
        (let (contact, b1) = getContact b (Some user') None
         in emit (HandleMessage contact message) b1)
      else
        (let (contact, b1) = getContact b (Some user') (Some channel) in
         if startswith message (nickname b @ '':'') \<or> startswith message (nickname b @ '','')
         then emit (HandleMessage contact (drop (length (nickname b @ '':'')) message)) b1
         else b1))"

definition action :: "IrcStatusBot \<Rightarrow> string \<Rightarrow> string \<Rightarrow> string \<Rightarrow> IrcStatusBot" where
  "action b user channel data =
     (let user' = split_bang user;
          (contact, b1) = getContact b (Some user') (Some channel)
      in if contains (nickname b) data then emit (HandleAction contact data) b1 else b1)"

text \<open>The channel name and the key that \<open>signedOn\<close> reads off an entry of the channel list.\<close>

definition entry_channel :: "chan_entry \<Rightarrow> string option" where
  "entry_channel c = (case c of ChanDict d \<Rightarrow> map_of d ''channel'' | ChanName n \<Rightarrow> Some n)"

definition entry_key :: "chan_entry \<Rightarrow> string option" where
  "entry_key c = (case c of ChanDict d \<Rightarrow> map_of d ''password'' | ChanName n \<Rightarrow> None)"

text \<open>
  \<open>IRCClient.join\<close> of Twisted reads \<open>channel[0]\<close> before it sends anything: a channel
  \<open>None\<close> raises a \<open>TypeError\<close> and an empty name an \<open>IndexError\<close>. Otherwise the call is
  recorded with the channel and the key it was given.
\<close>

definition IRCClient_join ::
  "IrcStatusBot \<Rightarrow> string option \<Rightarrow> string option \<Rightarrow> error + IrcStatusBot" where
  "IRCClient_join b channel key =
     (case channel of
        None \<Rightarrow> Inl TypeError
      | Some n \<Rightarrow> if n = [] then Inl IndexError else Inr (emit (Join n key) b))"

text \<open>
  The loop over the channel list. An exception ends it: the state is the one reached,
  with the joins already sent.
\<close>

fun join_channels :: "chan_entry list \<Rightarrow> IrcStatusBot \<Rightarrow> IrcStatusBot \<times> error option" where
  "join_channels [] b = (b, None)"
| "join_channels (c # cs) b =
     (case IRCClient_join b (entry_channel c) (entry_key c) of
        Inl e \<Rightarrow> (b, Some e)
      | Inr b1 \<Rightarrow> join_channels cs b1)"

text \<open>
  \<open>signedOn\<close> returns the state it reaches and the exception it ended with, if any.
\<close>

definition signedOn :: "IrcStatusBot \<Rightarrow> IrcStatusBot \<times> error option" where
  "signedOn b =
     (let b1 = (case password b of
                  None \<Rightarrow> b
                | Some pw \<Rightarrow>
                    if pw = [] then b
                    else emit (Msg ''Nickserv'' (Raw (''IDENTIFY '' @ pw))) b);
          (b2, raised) = join_channels (channels b) b1
      in case raised of
           Some e \<Rightarrow> (b2, Some e)
         | None \<Rightarrow> (fold (\<lambda>c s. snd (getContact s (Some c) None)) (pm_to_nicks b) b2, None))"


definition joined :: "IrcStatusBot \<Rightarrow> string \<Rightarrow> IrcStatusBot" where
  "joined b channel =
     (let b1 = emit (Log (''I have joined '' @ channel)) b
      in snd (getContact b1 None (Some channel)))"

definition left :: "IrcStatusBot \<Rightarrow> string \<Rightarrow> IrcStatusBot" where
  "left b channel = emit (Log (''I have left '' @ channel)) b"

definition kickedFrom :: "IrcStatusBot \<Rightarrow> string \<Rightarrow> string \<Rightarrow> string \<Rightarrow> IrcStatusBot" where
  "kickedFrom b channel kicker message =
     emit (Log (''I have been kicked from '' @ channel @ '' by '' @ kicker @ '': '' @ message)) b"

subsection \<open>Runs of a session\<close>

text \<open>The calls a session receives, and a run of them from a given state.\<close>

datatype bot_event =
    Ev_connectionMade
  | Ev_connectionLost
  | Ev_fire
  | Ev_groupChat string string
  | Ev_chat string string
  | Ev_groupDescribe string string
  | Ev_privmsg string string string
  | Ev_action string string string
  | Ev_signedOn
  | Ev_joined string
  | Ev_left string
  | Ev_kickedFrom string string string

fun bot_step :: "bot_event \<Rightarrow> IrcStatusBot \<Rightarrow> IrcStatusBot" where
  "bot_step Ev_connectionMade b = connectionMade b"
| "bot_step Ev_connectionLost b = connectionLost b"
| "bot_step Ev_fire b = keepAlive_fire b"
| "bot_step (Ev_groupChat c m) b = groupChat b c m"
| "bot_step (Ev_chat u m) b = chat b u m"
| "bot_step (Ev_groupDescribe c a) b = groupDescribe b c a"
| "bot_step (Ev_privmsg u c m) b = privmsg b u c m"
| "bot_step (Ev_action u c d) b = action b u c d"
| "bot_step Ev_signedOn b = fst (signedOn b)"
| "bot_step (Ev_joined c) b = joined b c"
| "bot_step (Ev_left c) b = left b c"
| "bot_step (Ev_kickedFrom c k m) b = kickedFrom b c k m"

definition bot_run :: "bot_event list \<Rightarrow> IrcStatusBot \<Rightarrow> IrcStatusBot" where
  "bot_run evs b = fold bot_step evs b"

text \<open>Whether the connection is up after a run of calls, given whether it was up before.\<close>

fun connected_after :: "bot_event list \<Rightarrow> bool \<Rightarrow> bool" where
  "connected_after [] up = up"
| "connected_after (Ev_connectionMade # evs) up = connected_after evs True"
| "connected_after (Ev_connectionLost # evs) up = connected_after evs False"
| "connected_after (e # evs) up = connected_after evs up"

text \<open>The calls of \<open>handleMessage\<close> and of \<open>handleAction\<close> in a trace, in order.\<close>

fun commands :: "effect list \<Rightarrow> (Contact \<times> string) list" where
  "commands [] = []"
| "commands (HandleMessage c m # es) = (c, m) # commands es"
| "commands (e # es) = commands es"

fun actions :: "effect list \<Rightarrow> (Contact \<times> string) list" where
  "actions [] = []"
| "actions (HandleAction c d # es) = (c, d) # actions es"
| "actions (e # es) = actions es"

section \<open>The supervisor: \<open>IrcStatusFactory\<close>\<close>

text \<open>
  The factory keeps the configuration, the flag \<open>shuttingDown\<close> and the reference \<open>p\<close> to
  the session built last. A session is referred to by its number, the count of sessions
  built before it. Each operation returns the factory and what it did to the outside.
\<close>

datatype factory_effect =
    Quit nat string
  | LogMsg string
  | ScheduleReconnect "nat option"

record IrcStatusFactory =
  f_nickname :: string
  f_password :: "string option"
  f_channels :: "chan_entry list"
  f_pm_to_nicks :: "string list"
  f_tags :: "string list option"
  f_notify_events :: "(string \<times> pyval) list"
  f_noticeOnChannel :: bool
  f_useRevisions :: bool
  f_showBlameList :: bool
  f_useColors :: bool
  f_allowShutdown :: pyval
  f_lostDelay :: "nat option"
  f_failedDelay :: "nat option"
  shuttingDown :: bool
  p :: "nat option"
  built :: nat

text \<open>\<open>tags or categories\<close>: the first operand unless it is \<open>None\<close> or empty.\<close>

definition tags_or :: "string list option \<Rightarrow> string list option \<Rightarrow> string list option" where
  "tags_or tags categories =
     (case tags of None \<Rightarrow> categories | Some ts \<Rightarrow> if ts = [] then categories else tags)"

definition IrcStatusFactory_init ::
  "string \<Rightarrow> string option \<Rightarrow> chan_entry list \<Rightarrow> string list \<Rightarrow> string list option \<Rightarrow>
   (string \<times> pyval) list \<Rightarrow> bool \<Rightarrow> bool \<Rightarrow> bool \<Rightarrow> nat option \<Rightarrow> nat option \<Rightarrow> bool \<Rightarrow>
   pyval \<Rightarrow> string list option \<Rightarrow> IrcStatusFactory \<times> factory_effect list" where
  "IrcStatusFactory_init nick pw chans pms tags notify notice revisions blame lost failed
       colors allow_shutdown categories =
     (\<lparr>f_nickname = nick, f_password = pw, f_channels = chans, f_pm_to_nicks = pms,
       f_tags = tags_or tags categories, f_notify_events = notify,
       f_noticeOnChannel = notice, f_useRevisions = revisions, f_showBlameList = blame,
       f_useColors = colors, f_allowShutdown = allow_shutdown,
       f_lostDelay = lost, f_failedDelay = failed,
       shuttingDown = False, p = None, built = 0\<rparr>,
      (case categories of
         None \<Rightarrow> []
       | Some cs \<Rightarrow>
           if cs = [] then []
           else [LogMsg (''WARNING: categories are deprecated and should be replaced with 'tags=[cat]''
                         @ [CHR 0x27])]))"

definition shutdown :: "IrcStatusFactory \<Rightarrow> IrcStatusFactory \<times> factory_effect list" where
  "shutdown f =
     (let f1 = f\<lparr>shuttingDown := True\<rparr>
      in (f1, case p f1 of
                None \<Rightarrow> []
              | Some n \<Rightarrow> [Quit n ''buildmaster reconfigured: bot disconnecting'']))"

definition buildProtocol :: "IrcStatusFactory \<Rightarrow> IrcStatusBot \<times> IrcStatusFactory" where
  "buildProtocol f =
     (IrcStatusBot_init (f_nickname f) (f_password f) (f_channels f) (f_pm_to_nicks f)
        (f_noticeOnChannel f),
      f\<lparr>p := Some (built f), built := Suc (built f)\<rparr>)"

text \<open>
  Modelled from the spec: \<open>ThrottledClientFactory.clientConnectionLost\<close> and
  \<open>clientConnectionFailed\<close> of \<open>buildbot.status.words\<close>, which are not among the sources.
  They schedule a reconnect attempt after \<open>lostDelay\<close> (for a loss) or \<open>failedDelay\<close> (for
  a failed attempt); an unset delay leaves the delay to the default policy.
\<close>

definition Throttled_clientConnectionLost ::
  "IrcStatusFactory \<Rightarrow> IrcStatusFactory \<times> factory_effect list" where
  "Throttled_clientConnectionLost f = (f, [ScheduleReconnect (f_lostDelay f)])"

definition Throttled_clientConnectionFailed ::
  "IrcStatusFactory \<Rightarrow> IrcStatusFactory \<times> factory_effect list" where
  "Throttled_clientConnectionFailed f = (f, [ScheduleReconnect (f_failedDelay f)])"

definition clientConnectionLost :: "IrcStatusFactory \<Rightarrow> IrcStatusFactory \<times> factory_effect list" where
  "clientConnectionLost f =
     (if shuttingDown f then (f, [LogMsg ''not scheduling reconnection attempt''])
      else Throttled_clientConnectionLost f)"

definition clientConnectionFailed :: "IrcStatusFactory \<Rightarrow> IrcStatusFactory \<times> factory_effect list" where
  "clientConnectionFailed f =
     (if shuttingDown f then (f, [LogMsg ''not scheduling reconnection attempt''])
      else Throttled_clientConnectionFailed f)"

text \<open>The events a factory sees, and a run of them with everything it did, in order.\<close>

datatype factory_event =
    Ev_shutdown
  | Ev_buildProtocol
  | Ev_clientConnectionLost
  | Ev_clientConnectionFailed

fun factory_step :: "factory_event \<Rightarrow> IrcStatusFactory \<Rightarrow> IrcStatusFactory \<times> factory_effect list" where
  "factory_step Ev_shutdown f = shutdown f"
| "factory_step Ev_buildProtocol f = (snd (buildProtocol f), [])"
| "factory_step Ev_clientConnectionLost f = clientConnectionLost f"
| "factory_step Ev_clientConnectionFailed f = clientConnectionFailed f"

fun factory_run :: "factory_event list \<Rightarrow> IrcStatusFactory \<Rightarrow> IrcStatusFactory \<times> factory_effect list" where
  "factory_run [] f = (f, [])"
| "factory_run (e # es) f =
     (let (f1, out1) = factory_step e f; (f2, out2) = factory_run es f1
      in (f2, out1 @ out2))"

definition is_reconnect :: "factory_effect \<Rightarrow> bool" where
  "is_reconnect e = (case e of ScheduleReconnect d \<Rightarrow> True | _ \<Rightarrow> False)"

section \<open>The service: \<open>IRC\<close>\<close>

text \<open>
  Modelled from the spec: \<open>config.error\<close> of \<open>buildbot.config\<close>, which is not among the
  sources. A configuration error is fatal where it is reported: the call raises, with
  the message and the offending value.
\<close>

definition config_error :: "string \<Rightarrow> pyval \<Rightarrow> error" where
  "config_error msg v = ConfigErrors msg v"

datatype client =
    TCPClient string nat IrcStatusFactory
  | SSLClient string nat IrcStatusFactory

record IRC_args =
  a_host :: string
  a_nick :: string
  a_channels :: "chan_entry list"
  a_pm_to_nicks :: "string list"
  a_port :: nat
  a_allowForce :: pyval
  a_tags :: "string list option"
  a_password :: "string option"
  a_notify_events :: "(string \<times> pyval) list"
  a_noticeOnChannel :: bool
  a_showBlameList :: bool
  a_useRevisions :: bool
  a_useSSL :: pyval
  a_lostDelay :: "nat option"
  a_failedDelay :: "nat option"
  a_useColors :: bool
  a_allowShutdown :: pyval
  a_categories :: "string list option"

record IRC =
  irc_host :: string
  irc_port :: nat
  irc_nick :: string
  irc_channels :: "chan_entry list"
  irc_pm_to_nicks :: "string list"
  irc_password :: "string option"
  irc_allowForce :: pyval
  irc_useRevisions :: bool
  irc_tags :: "string list option"
  irc_notify_events :: "(string \<times> pyval) list"
  irc_allowShutdown :: pyval
  irc_f :: IrcStatusFactory
  irc_child :: client

text \<open>
  What the constructor has done by the time it returns or raises. Creating the client
  service is the first step that touches the network layer.
\<close>

datatype init_step =
    Base_init
  | Factory_created IrcStatusFactory
  | Context_factory_created
  | Client_created client
  | Client_attached client

text \<open>
  The constructor, in the order of its statements, with the steps done and the service
  or the exception. \<open>have_ssl\<close> is the module's flag, true when the TLS library could be
  imported.
\<close>

definition IRC_init :: "bool \<Rightarrow> IRC_args \<Rightarrow> init_step list \<times> (error + IRC)" where
  "IRC_init have_ssl a =
     (if \<not> py_in (a_allowForce a) [PyBool True, PyBool False]
      then ([Base_init],
            Inl (config_error ''allowForce must be boolean, not '' (a_allowForce a)))
      else if \<not> py_in (a_allowShutdown a) [PyBool True, PyBool False]
      then ([Base_init],
            Inl (config_error ''allowShutdown must be boolean, not '' (a_allowShutdown a)))
      else
        (let tags = tags_or (a_tags a) (a_categories a);
             f = fst (IrcStatusFactory_init (a_nick a) (a_password a) (a_channels a)
                        (a_pm_to_nicks a) tags (a_notify_events a) (a_noticeOnChannel a)
                        (a_useRevisions a) (a_showBlameList a) (a_lostDelay a)
                        (a_failedDelay a) (a_useColors a) (a_allowShutdown a) None);
             svc = (\<lambda>c. \<lparr>irc_host = a_host a, irc_port = a_port a, irc_nick = a_nick a,
                         irc_channels = a_channels a, irc_pm_to_nicks = a_pm_to_nicks a,
                         irc_password = a_password a, irc_allowForce = a_allowForce a,
                         irc_useRevisions = a_useRevisions a, irc_tags = tags,
                         irc_notify_events = a_notify_events a,
                         irc_allowShutdown = a_allowShutdown a,
                         irc_f = f, irc_child = c\<rparr>)
         in if py_truthy (a_useSSL a)
            then (if \<not> have_ssl
                  then ([Base_init, Factory_created f],
                        Inl (RuntimeError ''useSSL requires PyOpenSSL''))
                  else (let c = SSLClient (a_host a) (a_port a) f
                        in ([Base_init, Factory_created f, Context_factory_created,
                             Client_created c, Client_attached c],
                            Inr (svc c))))
            else (let c = TCPClient (a_host a) (a_port a) f
                  in ([Base_init, Factory_created f, Client_created c, Client_attached c],
                      Inr (svc c)))))"

text \<open>The client services created among the steps done.\<close>

fun clients_created :: "init_step list \<Rightarrow> client list" where
  "clients_created [] = []"
| "clients_created (Client_created c # ss) = c # clients_created ss"
| "clients_created (s # ss) = clients_created ss"

text \<open>The arguments of a call \<open>IRC(host, nick, channels)\<close>, every other one at its default.\<close>

definition default_args :: "string \<Rightarrow> string \<Rightarrow> chan_entry list \<Rightarrow> IRC_args" where
  "default_args h n chans =
     \<lparr>a_host = h, a_nick = n, a_channels = chans, a_pm_to_nicks = [], a_port = 6667,
      a_allowForce = PyBool False, a_tags = None, a_password = None, a_notify_events = [],
      a_noticeOnChannel = False, a_showBlameList = True, a_useRevisions = False,
      a_useSSL = PyBool False, a_lostDelay = None, a_failedDelay = None,
      a_useColors = True, a_allowShutdown = PyBool False, a_categories = None\<rparr>"

definition stopService :: "IRC \<Rightarrow> IRC \<times> factory_effect list" where
  "stopService s = (let (f1, out1) = shutdown (irc_f s) in (s\<lparr>irc_f := f1\<rparr>, out1))"

section \<open>Facts about strings\<close>

lemma char_eq_char_of: "(c = char_of (n::nat)) = (take_bit 8 n = (of_char c :: nat))"
  using char_of_eq_iff[of n c] by blast

lemma lower_if_truthy:
  "(if truthy x then map_option lower x else x) = map_option lower x"
  by (cases x) (auto simp: truthy_def lower_def)

lemma lower_char_of_upper:
  assumes "is_upper a"
  shows "lower_char (lower_char a) = lower_char a"
proof -
  have r: "65 \<le> (of_char a :: nat)" "(of_char a :: nat) \<le> 90"
    using assms by (simp_all add: is_upper_def)
  have "(of_char (char_of ((of_char a :: nat) + 32)) :: nat) = of_char a + 32"
    using r by simp
  then have "\<not> is_upper (char_of ((of_char a :: nat) + 32))"
    using r by (simp add: is_upper_def)
  then show ?thesis
    using assms by (simp add: lower_char_def)
qed

lemma lower_char_upper_char:
  assumes "is_lower a"
  shows "lower_char (upper_char a) = a"
proof -
  have r: "97 \<le> (of_char a :: nat)" "(of_char a :: nat) \<le> 122"
    using assms by (simp_all add: is_lower_def)
  have e: "(of_char (char_of ((of_char a :: nat) - 32)) :: nat) = of_char a - 32"
    using r by simp
  have u: "is_upper (char_of ((of_char a :: nat) - 32))"
    unfolding is_upper_def e using r by linarith
  have "lower_char (upper_char a) = char_of ((of_char a :: nat) - 32 + 32)"
    using assms u e by (simp add: lower_char_def upper_char_def)
  also have "\<dots> = char_of (of_char a :: nat)"
    using r by simp
  finally show ?thesis by simp
qed

lemma lower_char_of_lower: "is_lower a \<Longrightarrow> lower_char a = a"
  by (simp add: lower_char_def is_lower_def is_upper_def)

lemma lower_char_same_letter: "same_letter a b \<Longrightarrow> lower_char a = lower_char b"
  unfolding same_letter_def
  using lower_char_of_upper lower_char_upper_char lower_char_of_lower by metis

lemma lower_differ_only_in_case: "differ_only_in_case s t \<Longrightarrow> lower s = lower t"
  unfolding differ_only_in_case_def lower_def
  by (induction s t rule: list_all2_induct) (auto dest: lower_char_same_letter)

lemma lower_rel_option:
  "rel_option differ_only_in_case x y \<Longrightarrow> map_option lower x = map_option lower y"
  by (cases x; cases y) (auto dest: lower_differ_only_in_case)

lemma startswith_iff: "startswith s pre \<longleftrightarrow> (\<exists>rest. s = pre @ rest)"
  unfolding startswith_def
  by (metis append_eq_conv_conj append_take_drop_id)

lemma startswith_sep:
  "startswith s (n @ [sep]) \<longleftrightarrow> (\<exists>rest. s = n @ sep # rest)"
  by (simp add: startswith_iff)

lemma contains_iff: "contains pre s \<longleftrightarrow> (\<exists>before after. s = before @ pre @ after)"
proof (induction s)
  case Nil
  show ?case by auto
next
  case (Cons c cs)
  have "(\<exists>before after. c # cs = before @ pre @ after) \<longleftrightarrow>
        (\<exists>after. c # cs = pre @ after) \<or> (\<exists>before after. cs = before @ pre @ after)"
  proof
    assume "\<exists>before after. c # cs = before @ pre @ after"
    then obtain before after where e: "c # cs = before @ pre @ after" by blast
    show "(\<exists>after. c # cs = pre @ after) \<or> (\<exists>before after. cs = before @ pre @ after)"
    proof (cases before)
      case Nil
      with e show ?thesis by auto
    next
      case (Cons x xs)
      with e have "cs = xs @ pre @ after" by simp
      then show ?thesis by blast
    qed
  next
    assume "(\<exists>after. c # cs = pre @ after) \<or> (\<exists>before after. cs = before @ pre @ after)"
    then show "\<exists>before after. c # cs = before @ pre @ after"
    proof
      assume "\<exists>after. c # cs = pre @ after"
      then obtain after where "c # cs = [] @ pre @ after" by auto
      then show ?thesis by blast
    next
      assume "\<exists>before after. cs = before @ pre @ after"
      then obtain before after where "c # cs = (c # before) @ pre @ after" by auto
      then show ?thesis by blast
    qed
  qed
  with Cons show ?case by (simp add: startswith_iff)
qed

lemma split_bang_host: "CHR ''!'' \<notin> set nick \<Longrightarrow> split_bang (nick @ CHR ''!'' # host) = nick"
  by (auto simp: split_bang_def takeWhile_tail)

lemma split_bang_plain: "CHR ''!'' \<notin> set nick \<Longrightarrow> split_bang nick = nick"
  by (auto simp: split_bang_def)

section \<open>Facts about traces and the registry\<close>

lemma emit_fields:
  "sent (emit e b) = sent b @ [e]"
  "contacts (emit e b) = contacts b"
  "keepAliveCall (emit e b) = keepAliveCall b"
  "nickname (emit e b) = nickname b"
  by (simp_all add: emit_def)

lemma commands_append: "commands (xs @ ys) = commands xs @ commands ys"
  by (induction xs rule: commands.induct) simp_all

lemma actions_append: "actions (xs @ ys) = actions xs @ actions ys"
  by (induction xs rule: actions.induct) simp_all

lemma getContact_eq:
  "getContact b user channel = StatusBot_getContact b (map_option lower user) (map_option lower channel)"
  by (simp add: getContact_def lower_if_truthy)

lemma StatusBot_getContact_registered:
  "map_of (contacts (snd (StatusBot_getContact b u c))) (u, c) = Some (fst (StatusBot_getContact b u c))"
  by (auto simp: StatusBot_getContact_def emit_def Let_def map_add_def split: option.splits)

lemma StatusBot_getContact_again:
  "StatusBot_getContact (snd (StatusBot_getContact b u c)) u c = StatusBot_getContact b u c"
  by (auto simp: StatusBot_getContact_def emit_def Let_def map_add_def split: option.splits)

lemma StatusBot_getContact_sent:
  "sent (snd (StatusBot_getContact b u c)) =
     sent b @ (case map_of (contacts b) (u, c) of
                 Some k \<Rightarrow> []
               | None \<Rightarrow> [Subscribe \<lparr>c_user = u, c_channel = c, c_serial = length (contacts b)\<rparr>])"
  by (simp add: StatusBot_getContact_def emit_def Let_def split: option.splits)

lemma StatusBot_getContact_contacts:
  "contacts (snd (StatusBot_getContact b u c)) =
     contacts b @ (case map_of (contacts b) (u, c) of
                 Some k \<Rightarrow> []
               | None \<Rightarrow> [((u, c), \<lparr>c_user = u, c_channel = c, c_serial = length (contacts b)\<rparr>)])"
  by (simp add: StatusBot_getContact_def emit_def Let_def split: option.splits)

lemma StatusBot_getContact_fields:
  "nickname (snd (StatusBot_getContact b u c)) = nickname b"
  "password (snd (StatusBot_getContact b u c)) = password b"
  "channels (snd (StatusBot_getContact b u c)) = channels b"
  "pm_to_nicks (snd (StatusBot_getContact b u c)) = pm_to_nicks b"
  "keepAliveCall (snd (StatusBot_getContact b u c)) = keepAliveCall b"
  by (simp_all add: StatusBot_getContact_def emit_def Let_def split: option.splits)

lemma getContact_registered:
  "map_of (contacts (snd (getContact b u c))) (map_option lower u, map_option lower c)
     = Some (fst (getContact b u c))"
  by (simp add: getContact_eq StatusBot_getContact_registered)

lemma getContact_commands:
  "commands (sent (snd (getContact b u c))) = commands (sent b)"
  by (simp add: getContact_eq StatusBot_getContact_sent commands_append split: option.splits)

lemma getContact_actions:
  "actions (sent (snd (getContact b u c))) = actions (sent b)"
  by (simp add: getContact_eq StatusBot_getContact_sent actions_append split: option.splits)

lemma getContact_keepAliveCall: "keepAliveCall (snd (getContact b u c)) = keepAliveCall b"
  by (simp add: getContact_eq StatusBot_getContact_fields)


section \<open>Outbound group chat\<close>

lemma groupChat_notice:
  "noticeOnChannel b \<Longrightarrow>
     sent (groupChat b channel message) = sent b @ [Notice channel (Utf8_replace message)]"
  by (simp add: groupChat_def emit_def)

lemma groupChat_silent:
  "\<not> noticeOnChannel b \<Longrightarrow> groupChat b channel message = b"
  by (simp add: groupChat_def)

text \<open>
  C1. The claim: \<open>groupChat\<close> sends a notice when \<open>noticeOnChannel\<close> is set and a normal
  channel message of the same text otherwise. The method has only the branch for the
  notice. On the session of nickname \<open>bb\<close> the call \<open>groupChat('#dev', 'build done')\<close> with
  \<open>noticeOnChannel\<close> false sends nothing, neither a notice nor a channel message; with the
  flag true it sends the notice, and \<open>chat\<close> with the same text sends a message.
\<close>

theorem groupChat_false_sends_nothing:
  "sent (groupChat (IrcStatusBot_init ''bb'' None [] [] False) ''#dev'' ''build done'') = []
   \<and> sent (groupChat (IrcStatusBot_init ''bb'' None [] [] True) ''#dev'' ''build done'')
       = [Notice ''#dev'' (Utf8_replace ''build done'')]
   \<and> sent (chat (IrcStatusBot_init ''bb'' None [] [] False) ''#dev'' ''build done'')
       = [Msg ''#dev'' (Utf8_replace ''build done'')]"
  by (simp add: groupChat_def chat_def emit_def IrcStatusBot_init_def)

section \<open>Case-insensitive contact lookup\<close>

text \<open>
  C5. Two user names that differ only in letter case, and two channel names that differ
  only in letter case, reach the registry under the same key: \<open>getContact\<close> gives the same
  result for both from any state, and a second lookup under the other spelling returns
  the Contact instance of the first and leaves the session as the first lookup left it.
\<close>

theorem getContact_case_insensitive:
  assumes "rel_option differ_only_in_case user1 user2"
      and "rel_option differ_only_in_case channel1 channel2"
  shows "getContact b user1 channel1 = getContact b user2 channel2
         \<and> getContact (snd (getContact b user1 channel1)) user2 channel2
             = getContact b user1 channel1"
  by (simp add: getContact_eq lower_rel_option[OF assms(1)] lower_rel_option[OF assms(2)]
        StatusBot_getContact_again)

text \<open>
  For \<open>Alice\<close> and \<open>alice\<close> on a fresh session: both lookups return the Contact registered
  first, with the user name \<open>alice\<close>.
\<close>

theorem getContact_case_insensitive_witness:
  "rel_option differ_only_in_case (Some ''Alice'') (Some ''alice'')
   \<and> getContact (IrcStatusBot_init ''bb'' None [] [] False) (Some ''Alice'') None
       = getContact (IrcStatusBot_init ''bb'' None [] [] False) (Some ''alice'') None
   \<and> fst (getContact (snd (getContact (IrcStatusBot_init ''bb'' None [] [] False) (Some ''Alice'') None))
            (Some ''alice'') None)
       = \<lparr>c_user = Some ''alice'', c_channel = None, c_serial = 0\<rparr>"
proof -
  have h1: "rel_option differ_only_in_case (Some ''Alice'') (Some ''alice'')"
    by (simp add: differ_only_in_case_def same_letter_def is_upper_def is_lower_def
          lower_char_def upper_char_def char_eq_char_of)
  have h2: "rel_option differ_only_in_case (None :: string option) None"
    by simp
  have e: "fst (getContact (IrcStatusBot_init ''bb'' None [] [] False) (Some ''Alice'') None)
       = \<lparr>c_user = Some ''alice'', c_channel = None, c_serial = 0\<rparr>"
    by (simp add: getContact_def StatusBot_getContact_def IrcStatusBot_init_def truthy_def
          lower_def lower_char_def is_upper_def emit_def Let_def char_of_eq_iff)
  note t = getContact_case_insensitive[OF h1 h2, of "IrcStatusBot_init ''bb'' None [] [] False"]
  have "fst (getContact (snd (getContact (IrcStatusBot_init ''bb'' None [] [] False) (Some ''Alice'') None))
            (Some ''alice'') None)
        = fst (getContact (IrcStatusBot_init ''bb'' None [] [] False) (Some ''Alice'') None)"
    using conjunct2[OF t] by (rule arg_cong)
  with e have "fst (getContact (snd (getContact (IrcStatusBot_init ''bb'' None [] [] False) (Some ''Alice'') None))
            (Some ''alice'') None)
        = \<lparr>c_user = Some ''alice'', c_channel = None, c_serial = 0\<rparr>"
    by (simp only:)
  with h1 conjunct1[OF t] show ?thesis
    by (intro conjI)
qed

section \<open>Inbound dispatch\<close>

text \<open>
  C3. For a channel message (the channel is not the bot's nickname), \<open>privmsg\<close> calls
  \<open>handleMessage\<close> exactly when the message is the nickname followed by \<open>:\<close> or \<open>,\<close> and
  a remainder; the call goes to the Contact for the sender and the channel and carries
  the remainder. Any other channel message adds no call of \<open>handleMessage\<close>.
\<close>

theorem privmsg_channel_dispatch:
  assumes "channel \<noteq> nickname b"
  shows "(\<forall>sep rest. sep \<in> {CHR '':'', CHR '',''} \<and> message = nickname b @ sep # rest \<longrightarrow>
            commands (sent (privmsg b user channel message)) =
              commands (sent b) @
                [(fst (getContact b (Some (split_bang user)) (Some channel)), rest)])
       \<and> ((\<nexists>sep rest. sep \<in> {CHR '':'', CHR '',''} \<and> message = nickname b @ sep # rest) \<longrightarrow>
            commands (sent (privmsg b user channel message)) = commands (sent b))"
proof -
  let ?g = "getContact b (Some (split_bang user)) (Some channel)"
  have m: "(startswith message (nickname b @ '':'') \<or> startswith message (nickname b @ '',''))
           \<longleftrightarrow> (\<exists>sep rest. sep \<in> {CHR '':'', CHR '',''} \<and> message = nickname b @ sep # rest)"
    by (auto simp: startswith_sep)
  have yes: "commands (sent (privmsg b user channel message)) =
               commands (sent b) @ [(fst ?g, rest)]"
    if "sep \<in> {CHR '':'', CHR '',''}" "message = nickname b @ sep # rest" for sep rest
  proof -
    have "startswith message (nickname b @ '':'') \<or> startswith message (nickname b @ '','')"
      using that m by blast
    moreover have "drop (length (nickname b @ '':'')) message = rest"
      using that by simp
    ultimately show ?thesis
      using assms
      by (simp add: privmsg_def Let_def case_prod_unfold emit_def commands_append
            getContact_commands)
  qed
  have no: "commands (sent (privmsg b user channel message)) = commands (sent b)"
    if "\<nexists>sep rest. sep \<in> {CHR '':'', CHR '',''} \<and> message = nickname b @ sep # rest"
  proof -
    have "\<not> (startswith message (nickname b @ '':'') \<or> startswith message (nickname b @ '',''))"
      using that m by blast
    then show ?thesis
      using assms by (simp add: privmsg_def Let_def case_prod_unfold getContact_commands)
  qed
  from yes no show ?thesis by blast
qed

text \<open>
  With nickname \<open>bb\<close>: \<open>bb: status\<close> is dispatched with the text \<open> status\<close>, and \<open>bb status\<close>
  is not dispatched.
\<close>

theorem privmsg_channel_dispatch_witness:
  "''#dev'' \<noteq> nickname (IrcStatusBot_init ''bb'' None [] [] False)
   \<and> commands (sent (privmsg (IrcStatusBot_init ''bb'' None [] [] False) ''alice'' ''#dev'' ''bb: status''))
       = [(\<lparr>c_user = Some ''alice'', c_channel = Some ''#dev'', c_serial = 0\<rparr>, '' status'')]
   \<and> commands (sent (privmsg (IrcStatusBot_init ''bb'' None [] [] False) ''alice'' ''#dev'' ''bb status''))
       = []"
proof -
  let ?b = "IrcStatusBot_init ''bb'' None [] [] False"
  have h: "''#dev'' \<noteq> nickname ?b"
    by (simp add: IrcStatusBot_init_def)
  have n: "nickname ?b = ''bb''" and s0: "commands (sent ?b) = []"
    by (simp_all add: IrcStatusBot_init_def)
  have c: "fst (getContact ?b (Some (split_bang ''alice'')) (Some ''#dev''))
           = \<lparr>c_user = Some ''alice'', c_channel = Some ''#dev'', c_serial = 0\<rparr>"
    by (simp add: getContact_def StatusBot_getContact_def IrcStatusBot_init_def truthy_def
          split_bang_def lower_def lower_char_def is_upper_def Let_def)
  note t = privmsg_channel_dispatch[OF h]
  have "CHR '':'' \<in> {CHR '':'', CHR '',''} \<and> ''bb: status'' = nickname ?b @ CHR '':'' # '' status''"
    by (simp add: n)
  with conjunct1[OF t[where message = "''bb: status''" and user = "''alice''"]]
  have y: "commands (sent (privmsg ?b ''alice'' ''#dev'' ''bb: status'')) =
             commands (sent ?b) @ [(fst (getContact ?b (Some (split_bang ''alice'')) (Some ''#dev'')), '' status'')]"
    by blast
  have "\<nexists>sep rest. sep \<in> {CHR '':'', CHR '',''} \<and> ''bb status'' = nickname ?b @ sep # rest"
    by (auto simp: n)
  with conjunct2[OF t[where message = "''bb status''" and user = "''alice''"]]
  have z: "commands (sent (privmsg ?b ''alice'' ''#dev'' ''bb status'')) = commands (sent ?b)"
    by blast
  from h y z show ?thesis
    by (simp only: c s0 append_Nil simp_thms)
qed

text \<open>
  C4. \<open>action\<close> calls \<open>handleAction\<close> with the whole text, on the Contact for the sender
  and the channel, exactly when the nickname occurs somewhere in the text; no addressing
  prefix is asked for.
\<close>

theorem action_dispatch:
  "actions (sent (action b user channel data)) =
     actions (sent b) @
       (if (\<exists>before after. data = before @ nickname b @ after)
        then [(fst (getContact b (Some (split_bang user)) (Some channel)), data)]
        else [])"
  by (simp add: action_def Let_def case_prod_unfold emit_def actions_append getContact_actions
        contains_iff)

text \<open>
  With nickname \<open>bb\<close>: \<open>waves at bb\<close> is dispatched, \<open>waves\<close> is not.
\<close>

theorem action_dispatch_witness:
  "actions (sent (action (IrcStatusBot_init ''bb'' None [] [] False) ''alice'' ''#dev'' ''waves at bb''))
     = [(\<lparr>c_user = Some ''alice'', c_channel = Some ''#dev'', c_serial = 0\<rparr>, ''waves at bb'')]
   \<and> actions (sent (action (IrcStatusBot_init ''bb'' None [] [] False) ''alice'' ''#dev'' ''waves''))
     = []"
proof -
  let ?b = "IrcStatusBot_init ''bb'' None [] [] False"
  have n: "nickname ?b = ''bb''" and s0: "actions (sent ?b) = []"
    by (simp_all add: IrcStatusBot_init_def)
  have c: "fst (getContact ?b (Some (split_bang ''alice'')) (Some ''#dev''))
           = \<lparr>c_user = Some ''alice'', c_channel = Some ''#dev'', c_serial = 0\<rparr>"
    by (simp add: getContact_def StatusBot_getContact_def IrcStatusBot_init_def truthy_def
          split_bang_def lower_def lower_char_def is_upper_def Let_def)
  have "''waves at bb'' = ''waves at '' @ nickname ?b @ []"
    by (simp add: n)
  then have ex: "\<exists>before after. ''waves at bb'' = before @ nickname ?b @ after"
    by blast
  have y: "actions (sent (action ?b ''alice'' ''#dev'' ''waves at bb'')) =
        actions (sent ?b) @ [(fst (getContact ?b (Some (split_bang ''alice'')) (Some ''#dev'')), ''waves at bb'')]"
    using action_dispatch[of ?b "''alice''" "''#dev''" "''waves at bb''"] ex
    by (simp only: if_True)
  have nex: "\<not> (\<exists>before after. ''waves'' = before @ nickname ?b @ after)"
    using contains_iff[of "nickname ?b" "''waves''"]
    by (simp add: n startswith_def)
  have z: "actions (sent (action ?b ''alice'' ''#dev'' ''waves'')) = actions (sent ?b)"
    using action_dispatch[of ?b "''alice''" "''#dev''" "''waves''"] nex
    by (simp only: if_False append_Nil2)
  from y z show ?thesis
    by (simp only: c s0 append_Nil simp_thms)
qed

lemma privmsg_private:
  "channel = nickname b \<Longrightarrow>
     privmsg b user channel message =
       emit (HandleMessage (fst (getContact b (Some (split_bang user)) None)) message)
         (snd (getContact b (Some (split_bang user)) None))"
  by (simp add: privmsg_def Let_def case_prod_unfold)

lemma privmsg_channel:
  "channel \<noteq> nickname b \<Longrightarrow>
     privmsg b user channel message =
       (if startswith message (nickname b @ '':'') \<or> startswith message (nickname b @ '','')
        then emit (HandleMessage (fst (getContact b (Some (split_bang user)) (Some channel)))
                     (drop (Suc (length (nickname b))) message))
               (snd (getContact b (Some (split_bang user)) (Some channel)))
        else snd (getContact b (Some (split_bang user)) (Some channel)))"
  by (simp add: privmsg_def Let_def case_prod_unfold)

lemma action_unfold:
  "action b user channel data =
     (if contains (nickname b) data
      then emit (HandleAction (fst (getContact b (Some (split_bang user)) (Some channel))) data)
             (snd (getContact b (Some (split_bang user)) (Some channel)))
      else snd (getContact b (Some (split_bang user)) (Some channel)))"
  by (simp add: action_def Let_def case_prod_unfold)

text \<open>
  C10. In \<open>privmsg\<close> and in \<open>action\<close> the sender is cut at the first \<open>!\<close> before anything
  else is done with it. For a sender \<open>nick!host\<close>: the call is the call for the sender
  \<open>nick\<close>; the Contact it resolves is the one that \<open>getContact\<close> returns for \<open>nick\<close>, found
  in the registry afterwards under the lowercased \<open>nick\<close> (with the lowercased channel, or
  with no channel for a private message); and every call of \<open>handleMessage\<close> or
  \<open>handleAction\<close> that it makes goes to that Contact.
\<close>

theorem sender_host_discarded:
  assumes "CHR ''!'' \<notin> set nick"
  shows "split_bang (nick @ CHR ''!'' # host) = nick
       \<and> privmsg b (nick @ CHR ''!'' # host) channel message = privmsg b nick channel message
       \<and> action b (nick @ CHR ''!'' # host) channel data = action b nick channel data
       \<and> map_of (contacts (privmsg b (nick @ CHR ''!'' # host) channel message))
            (Some (lower nick), if channel = nickname b then None else Some (lower channel))
           = Some (fst (getContact b (Some nick)
                          (if channel = nickname b then None else Some channel)))
       \<and> commands (sent (privmsg b (nick @ CHR ''!'' # host) channel message)) =
           commands (sent b) @
             (if channel = nickname b
              then [(fst (getContact b (Some nick) None), message)]
              else if startswith message (nickname b @ '':'')
                      \<or> startswith message (nickname b @ '','')
              then [(fst (getContact b (Some nick) (Some channel)),
                     drop (Suc (length (nickname b))) message)]
              else [])
       \<and> map_of (contacts (action b (nick @ CHR ''!'' # host) channel data))
            (Some (lower nick), Some (lower channel))
           = Some (fst (getContact b (Some nick) (Some channel)))
       \<and> actions (sent (action b (nick @ CHR ''!'' # host) channel data)) =
           actions (sent b) @
             (if contains (nickname b) data
              then [(fst (getContact b (Some nick) (Some channel)), data)]
              else [])"
proof -
  have a: "split_bang (nick @ CHR ''!'' # host) = nick"
    using assms by (rule split_bang_host)
  have c: "split_bang nick = nick"
    using assms by (rule split_bang_plain)
  have p: "privmsg b (nick @ CHR ''!'' # host) channel message = privmsg b nick channel message"
    by (simp add: privmsg_def a c)
  have q: "action b (nick @ CHR ''!'' # host) channel data = action b nick channel data"
    by (simp add: action_def a c)
  have r1: "map_of (contacts (snd (getContact b (Some nick) None))) (Some (lower nick), None)
              = Some (fst (getContact b (Some nick) None))"
    using getContact_registered[of b "Some nick" None] by simp
  have r2: "map_of (contacts (snd (getContact b (Some nick) (Some channel))))
              (Some (lower nick), Some (lower channel))
              = Some (fst (getContact b (Some nick) (Some channel)))"
    using getContact_registered[of b "Some nick" "Some channel"] by simp
  have k: "map_of (contacts (privmsg b (nick @ CHR ''!'' # host) channel message))
            (Some (lower nick), if channel = nickname b then None else Some (lower channel))
           = Some (fst (getContact b (Some nick)
                          (if channel = nickname b then None else Some channel)))"
  proof (cases "channel = nickname b")
    case True
    then show ?thesis
      by (simp add: privmsg_private a emit_fields r1)
  next
    case False
    then show ?thesis
      by (simp add: privmsg_channel a emit_fields r2)
  qed
  have m: "commands (sent (privmsg b (nick @ CHR ''!'' # host) channel message)) =
           commands (sent b) @
             (if channel = nickname b
              then [(fst (getContact b (Some nick) None), message)]
              else if startswith message (nickname b @ '':'')
                      \<or> startswith message (nickname b @ '','')
              then [(fst (getContact b (Some nick) (Some channel)),
                     drop (Suc (length (nickname b))) message)]
              else [])"
  proof (cases "channel = nickname b")
    case True
    then show ?thesis
      by (simp add: privmsg_private a emit_fields commands_append getContact_commands)
  next
    case False
    then show ?thesis
      by (simp add: privmsg_channel a emit_fields commands_append getContact_commands)
  qed
  have k': "map_of (contacts (action b (nick @ CHR ''!'' # host) channel data))
            (Some (lower nick), Some (lower channel))
           = Some (fst (getContact b (Some nick) (Some channel)))"
    by (simp add: action_unfold a emit_fields r2)
  have m': "actions (sent (action b (nick @ CHR ''!'' # host) channel data)) =
           actions (sent b) @
             (if contains (nickname b) data
              then [(fst (getContact b (Some nick) (Some channel)), data)]
              else [])"
    by (simp add: action_unfold a emit_fields actions_append getContact_actions)
  from a p q k m k' m' show ?thesis by (intro conjI)
qed

text \<open>
  The sender \<open>nick!~user@host\<close> on \<open>#dev\<close>, for the bot \<open>bb\<close>: the command and the action
  both reach the Contact of \<open>nick\<close>.
\<close>

theorem sender_host_discarded_witness:
  "CHR ''!'' \<notin> set ''nick''
   \<and> privmsg (IrcStatusBot_init ''bb'' None [] [] False) ''nick!~user@host'' ''#dev'' ''bb: hi''
       = privmsg (IrcStatusBot_init ''bb'' None [] [] False) ''nick'' ''#dev'' ''bb: hi''
   \<and> map_of (contacts (privmsg (IrcStatusBot_init ''bb'' None [] [] False)
                         ''nick!~user@host'' ''#dev'' ''bb: hi''))
        (Some ''nick'', Some ''#dev'')
       = Some \<lparr>c_user = Some ''nick'', c_channel = Some ''#dev'', c_serial = 0\<rparr>
   \<and> commands (sent (privmsg (IrcStatusBot_init ''bb'' None [] [] False)
                       ''nick!~user@host'' ''#dev'' ''bb: hi''))
       = [(\<lparr>c_user = Some ''nick'', c_channel = Some ''#dev'', c_serial = 0\<rparr>, '' hi'')]
   \<and> actions (sent (action (IrcStatusBot_init ''bb'' None [] [] False)
                      ''nick!~user@host'' ''#dev'' ''hugs bb''))
       = [(\<lparr>c_user = Some ''nick'', c_channel = Some ''#dev'', c_serial = 0\<rparr>, ''hugs bb'')]"
proof -
  let ?b = "IrcStatusBot_init ''bb'' None [] [] False"
  have h: "CHR ''!'' \<notin> set ''nick''"
    by simp
  have g: "fst (getContact ?b (Some ''nick'') (Some ''#dev''))
             = \<lparr>c_user = Some ''nick'', c_channel = Some ''#dev'', c_serial = 0\<rparr>"
    by (simp add: getContact_def StatusBot_getContact_def IrcStatusBot_init_def truthy_def
          lower_def lower_char_def is_upper_def Let_def)
  have l: "lower ''nick'' = ''nick''" "lower ''#dev'' = ''#dev''"
    by (simp_all add: lower_def lower_char_def is_upper_def)
  have n: "nickname ?b = ''bb''" "sent ?b = []"
    by (simp_all add: IrcStatusBot_init_def)
  note t = sender_host_discarded[OF h, of "''~user@host''" ?b "''#dev''" "''bb: hi''" "''hugs bb''"]
  note t2 = t[THEN conjunct2]
  note t3 = t2[THEN conjunct2]
  note t4 = t3[THEN conjunct2]
  note t5 = t4[THEN conjunct2]
  note t6 = t5[THEN conjunct2]
  from t2[THEN conjunct1]
  have p: "privmsg ?b ''nick!~user@host'' ''#dev'' ''bb: hi'' = privmsg ?b ''nick'' ''#dev'' ''bb: hi''"
    by simp
  from t4[THEN conjunct1]
  have k: "map_of (contacts (privmsg ?b ''nick!~user@host'' ''#dev'' ''bb: hi''))
        (Some ''nick'', Some ''#dev'')
       = Some \<lparr>c_user = Some ''nick'', c_channel = Some ''#dev'', c_serial = 0\<rparr>"
    by (simp add: l n g)
  from t5[THEN conjunct1]
  have m: "commands (sent (privmsg ?b ''nick!~user@host'' ''#dev'' ''bb: hi''))
       = [(\<lparr>c_user = Some ''nick'', c_channel = Some ''#dev'', c_serial = 0\<rparr>, '' hi'')]"
    by (simp add: l n g startswith_def)
  from t6[THEN conjunct2]
  have m': "actions (sent (action ?b ''nick!~user@host'' ''#dev'' ''hugs bb''))
       = [(\<lparr>c_user = Some ''nick'', c_channel = Some ''#dev'', c_serial = 0\<rparr>, ''hugs bb'')]"
    by (simp add: l n g startswith_def)
  from h p k m m' show ?thesis by (intro conjI)
qed

text \<open>
  C9. For a channel message, \<open>privmsg\<close> resolves the Contact for the sender and the channel
  whatever the message is: after the call the registry holds an entry under the
  lowercased key, and if there was none before, the entry is new, appended to the
  registry, and its subscription is the first thing the call does.
\<close>

theorem privmsg_resolves_contact:
  assumes "channel \<noteq> nickname b"
  shows "map_of (contacts (privmsg b user channel message))
           (Some (lower (split_bang user)), Some (lower channel)) \<noteq> None
       \<and> (map_of (contacts b) (Some (lower (split_bang user)), Some (lower channel)) = None \<longrightarrow>
            contacts (privmsg b user channel message) =
              contacts b @
                [((Some (lower (split_bang user)), Some (lower channel)),
                  \<lparr>c_user = Some (lower (split_bang user)), c_channel = Some (lower channel),
                   c_serial = length (contacts b)\<rparr>)]
            \<and> take (Suc (length (sent b))) (sent (privmsg b user channel message)) =
                sent b @
                  [Subscribe \<lparr>c_user = Some (lower (split_bang user)),
                     c_channel = Some (lower channel), c_serial = length (contacts b)\<rparr>])"
proof -
  let ?u = "Some (lower (split_bang user))" and ?c = "Some (lower channel)"
  let ?g = "StatusBot_getContact b ?u ?c"
  have p: "privmsg b user channel message = snd ?g \<or>
           (\<exists>e. privmsg b user channel message = emit e (snd ?g))"
    using assms by (auto simp: privmsg_def Let_def case_prod_unfold getContact_eq)
  have c: "contacts (privmsg b user channel message) = contacts (snd ?g)"
    using p by (auto simp: emit_def)
  have s: "\<exists>es. sent (privmsg b user channel message) = sent (snd ?g) @ es"
    using p by (auto simp: emit_def)
  have r: "map_of (contacts (privmsg b user channel message)) (?u, ?c) \<noteq> None"
    by (simp add: c StatusBot_getContact_registered)
  show ?thesis
    using r s by (auto simp: c StatusBot_getContact_contacts StatusBot_getContact_sent)
qed

text \<open>
  The message \<open>good morning\<close> from \<open>Alice\<close> on \<open>#Dev\<close> is no command for \<open>bb\<close>, and still
  registers the Contact of \<open>alice\<close> on \<open>#dev\<close>.
\<close>

theorem privmsg_resolves_contact_witness:
  "''#dev'' \<noteq> nickname (IrcStatusBot_init ''bb'' None [] [] False)
   \<and> contacts (privmsg (IrcStatusBot_init ''bb'' None [] [] False) ''Alice!~a@host'' ''#Dev'' ''good morning'')
       = [((Some ''alice'', Some ''#dev''),
           \<lparr>c_user = Some ''alice'', c_channel = Some ''#dev'', c_serial = 0\<rparr>)]
   \<and> commands (sent (privmsg (IrcStatusBot_init ''bb'' None [] [] False) ''Alice!~a@host'' ''#Dev'' ''good morning''))
       = []"
proof -
  let ?b = "IrcStatusBot_init ''bb'' None [] [] False"
  have h: "''#Dev'' \<noteq> nickname ?b" and h': "''#dev'' \<noteq> nickname ?b"
    by (simp_all add: IrcStatusBot_init_def)
  have l: "lower (split_bang ''Alice!~a@host'') = ''alice''" "lower ''#Dev'' = ''#dev''"
    by (simp_all add: split_bang_def lower_def lower_char_def is_upper_def char_eq_char_of char_of_eq_iff)
  have e: "map_of (contacts ?b) (Some (lower (split_bang ''Alice!~a@host'')), Some (lower ''#Dev'')) = None"
    "contacts ?b = []"
    by (simp_all add: IrcStatusBot_init_def)
  from conjunct2[OF privmsg_resolves_contact[OF h, of "''Alice!~a@host''" "''good morning''"]] e
  have "contacts (privmsg ?b ''Alice!~a@host'' ''#Dev'' ''good morning'') =
          [((Some ''alice'', Some ''#dev''),
           \<lparr>c_user = Some ''alice'', c_channel = Some ''#dev'', c_serial = 0\<rparr>)]"
    by (simp add: l)
  moreover have "commands (sent (privmsg ?b ''Alice!~a@host'' ''#Dev'' ''good morning'')) = []"
    by (simp add: privmsg_def IrcStatusBot_init_def startswith_def getContact_commands
          case_prod_unfold Let_def)
  ultimately show ?thesis using h' by blast
qed

section \<open>Signing on\<close>










section \<open>The keepalive\<close>

lemma fold_getContact_keepAliveCall:
  "keepAliveCall (fold (\<lambda>c s. snd (getContact s (Some c) None)) ns b) = keepAliveCall b"
  by (induction ns arbitrary: b) (simp_all add: getContact_keepAliveCall)

lemma join_channels_keepAliveCall:
  "keepAliveCall (fst (join_channels cs b)) = keepAliveCall b"
  by (induction cs arbitrary: b)
     (simp_all add: IRCClient_join_def emit_fields split: option.splits)

lemma signedOn_keepAliveCall: "keepAliveCall (fst (signedOn b)) = keepAliveCall b"
  by (simp add: signedOn_def Let_def case_prod_unfold fold_getContact_keepAliveCall
        join_channels_keepAliveCall emit_fields split: option.splits)

lemma running_step:
  "running (keepAliveCall (bot_step e b)) = connected_after [e] (running (keepAliveCall b))"
proof (cases e)
  case Ev_connectionMade
  then show ?thesis by (simp add: connectionMade_def Let_def emit_fields)
next
  case Ev_connectionLost
  then show ?thesis by (simp add: connectionLost_def Let_def emit_fields)
next
  case Ev_fire
  then show ?thesis by (simp add: keepAlive_fire_def emit_fields)
next
  case (Ev_groupChat c m)
  then show ?thesis by (simp add: groupChat_def emit_fields)
next
  case (Ev_chat u m)
  then show ?thesis by (simp add: chat_def emit_fields)
next
  case (Ev_groupDescribe c a)
  then show ?thesis by (simp add: groupDescribe_def emit_fields)
next
  case (Ev_privmsg u c m)
  then show ?thesis
    by (simp add: privmsg_def Let_def case_prod_unfold emit_fields getContact_keepAliveCall)
next
  case (Ev_action u c d)
  then show ?thesis
    by (simp add: action_def Let_def case_prod_unfold emit_fields getContact_keepAliveCall)
next
  case Ev_signedOn
  then show ?thesis by (simp add: signedOn_keepAliveCall)
next
  case (Ev_joined c)
  then show ?thesis by (simp add: joined_def Let_def getContact_keepAliveCall emit_fields)
next
  case (Ev_left c)
  then show ?thesis by (simp add: left_def emit_fields)
next
  case (Ev_kickedFrom c k m)
  then show ?thesis by (simp add: kickedFrom_def emit_fields)
qed

lemma connected_after_Cons:
  "connected_after (e # evs) up = connected_after evs (connected_after [e] up)"
  by (cases e) simp_all

lemma running_run:
  "running (keepAliveCall (bot_run evs b)) = connected_after evs (running (keepAliveCall b))"
  unfolding bot_run_def
proof (induction evs arbitrary: b)
  case Nil
  show ?case by simp
next
  case (Cons e evs)
  have "running (keepAliveCall (fold bot_step (e # evs) b)) =
        connected_after evs (running (keepAliveCall (bot_step e b)))"
    using Cons.IH[of "bot_step e b"] by simp
  also have "\<dots> = connected_after (e # evs) (running (keepAliveCall b))"
    by (simp only: running_step connected_after_Cons[of e evs])
  finally show ?case .
qed

text \<open>
  C7. \<open>connectionMade\<close> starts the looping call with the interval 60; while it runs, a
  firing pings the bot's own nickname. \<open>connectionLost\<close> leaves the looping call stopped,
  whatever the state before, and a firing after it sends nothing. Over every run of
  calls, the looping call is running exactly when the connection is up.
\<close>

theorem keepalive_runs_while_connected:
  "keepAliveCall (connectionMade b) = \<lparr>running = True, interval = Some 60\<rparr>
   \<and> \<not> running (keepAliveCall (connectionLost b))
   \<and> sent (keepAlive_fire (connectionMade b)) = sent (connectionMade b) @ [Ping (nickname b)]
   \<and> keepAlive_fire (connectionLost b) = connectionLost b
   \<and> running (keepAliveCall (bot_run evs b)) = connected_after evs (running (keepAliveCall b))"
  by (simp add: running_run)
     (simp add: connectionMade_def connectionLost_def keepAlive_fire_def emit_def Let_def)

theorem keepalive_runs_while_connected_witness:
  "running (keepAliveCall (bot_run [Ev_connectionMade, Ev_signedOn] (IrcStatusBot_init ''bb'' None [] [] False)))
   \<and> \<not> running (keepAliveCall (bot_run [Ev_connectionMade, Ev_signedOn, Ev_connectionLost, Ev_fire]
          (IrcStatusBot_init ''bb'' None [] [] False)))"
  using keepalive_runs_while_connected[of "IrcStatusBot_init ''bb'' None [] [] False" "[Ev_connectionMade, Ev_signedOn]"]
        keepalive_runs_while_connected[of "IrcStatusBot_init ''bb'' None [] [] False"
           "[Ev_connectionMade, Ev_signedOn, Ev_connectionLost, Ev_fire]"]
  by (simp add: IrcStatusBot_init_def)

section \<open>Shutting down the supervisor\<close>

lemma shutdown_state: "fst (shutdown f) = f\<lparr>shuttingDown := True\<rparr>"
  by (simp add: shutdown_def Let_def)

lemma step_keeps_shuttingDown:
  "shuttingDown f \<Longrightarrow> shuttingDown (fst (factory_step e f))"
  by (cases e) (simp_all add: shutdown_state buildProtocol_def clientConnectionLost_def
        clientConnectionFailed_def)

lemma step_no_reconnect:
  "shuttingDown f \<Longrightarrow> \<not> list_ex is_reconnect (snd (factory_step e f))"
  by (cases e) (simp_all add: shutdown_def Let_def clientConnectionLost_def
        clientConnectionFailed_def is_reconnect_def split: option.splits)

lemma run_keeps_shuttingDown:
  "shuttingDown f \<Longrightarrow> shuttingDown (fst (factory_run evs f))"
proof (induction evs arbitrary: f)
  case Nil
  then show ?case by simp
next
  case (Cons e evs)
  from Cons.prems have "shuttingDown (fst (factory_step e f))"
    by (rule step_keeps_shuttingDown)
  then have "shuttingDown (fst (factory_run evs (fst (factory_step e f))))"
    by (rule Cons.IH)
  then show ?case by (simp add: case_prod_unfold Let_def)
qed

lemma run_no_reconnect:
  "shuttingDown f \<Longrightarrow> \<not> list_ex is_reconnect (snd (factory_run evs f))"
proof (induction evs arbitrary: f)
  case Nil
  then show ?case by simp
next
  case (Cons e evs)
  from Cons.prems have s: "shuttingDown (fst (factory_step e f))"
    by (rule step_keeps_shuttingDown)
  have a: "\<not> list_ex is_reconnect (snd (factory_step e f))"
    using Cons.prems by (rule step_no_reconnect)
  have b: "\<not> list_ex is_reconnect (snd (factory_run evs (fst (factory_step e f))))"
    using s by (rule Cons.IH)
  from a b show ?case by (auto simp: case_prod_unfold Let_def list_ex_iff)
qed

text \<open>
  C2. \<open>shutdown\<close> sets \<open>shuttingDown\<close>; a second call leaves the factory as the first
  left it (with a live session, each call sends that session the quit message again,
  which changes nothing in the factory). In every state reached from there by any run
  of events, \<open>shuttingDown\<close> is still set, \<open>clientConnectionLost\<close> and
  \<open>clientConnectionFailed\<close> only log, and the whole run schedules no reconnect.
\<close>

theorem shutdown_stops_reconnecting:
  "shuttingDown (fst (shutdown f))
   \<and> fst (shutdown (fst (shutdown f))) = fst (shutdown f)
   \<and> shuttingDown (fst (factory_run evs (fst (shutdown f))))
   \<and> clientConnectionLost (fst (factory_run evs (fst (shutdown f)))) =
       (fst (factory_run evs (fst (shutdown f))), [LogMsg ''not scheduling reconnection attempt''])
   \<and> clientConnectionFailed (fst (factory_run evs (fst (shutdown f)))) =
       (fst (factory_run evs (fst (shutdown f))), [LogMsg ''not scheduling reconnection attempt''])
   \<and> \<not> list_ex is_reconnect (snd (factory_run evs (fst (shutdown f))))"
proof -
  have d: "shuttingDown (fst (shutdown f))"
    by (simp add: shutdown_state)
  have i: "fst (shutdown (fst (shutdown f))) = fst (shutdown f)"
    by (simp add: shutdown_state)
  have r: "shuttingDown (fst (factory_run evs (fst (shutdown f))))"
    using d by (rule run_keeps_shuttingDown)
  have n: "\<not> list_ex is_reconnect (snd (factory_run evs (fst (shutdown f))))"
    using d by (rule run_no_reconnect)
  from d i r n show ?thesis
    by (simp add: clientConnectionLost_def clientConnectionFailed_def)
qed

text \<open>
  A factory with \<open>lostDelay = 5\<close>: before \<open>shutdown\<close> a lost connection schedules a
  reconnect; after it, a session is built, lost, shut down again and fails to connect,
  and nothing is scheduled.
\<close>

theorem shutdown_stops_reconnecting_witness:
  "snd (factory_run [Ev_buildProtocol, Ev_clientConnectionLost, Ev_shutdown, Ev_clientConnectionFailed]
          (fst (shutdown (fst (IrcStatusFactory_init ''bb'' None [ChanName ''#dev''] [] None []
                                 False False True (Some 5) None True (PyBool False) None)))))
     = [LogMsg ''not scheduling reconnection attempt'',
        Quit 0 ''buildmaster reconfigured: bot disconnecting'',
        LogMsg ''not scheduling reconnection attempt'']
   \<and> \<not> list_ex is_reconnect
         (snd (factory_run [Ev_buildProtocol, Ev_clientConnectionLost, Ev_shutdown, Ev_clientConnectionFailed]
          (fst (shutdown (fst (IrcStatusFactory_init ''bb'' None [ChanName ''#dev''] [] None []
                                 False False True (Some 5) None True (PyBool False) None))))))
   \<and> snd (clientConnectionLost (fst (IrcStatusFactory_init ''bb'' None [ChanName ''#dev''] [] None []
                                 False False True (Some 5) None True (PyBool False) None)))
     = [ScheduleReconnect (Some 5)]"
proof -
  let ?f = "fst (IrcStatusFactory_init ''bb'' None [ChanName ''#dev''] [] None []
                   False False True (Some 5) None True (PyBool False) None)"
  let ?evs = "[Ev_buildProtocol, Ev_clientConnectionLost, Ev_shutdown, Ev_clientConnectionFailed]"
  have a: "snd (factory_run ?evs (fst (shutdown ?f)))
     = [LogMsg ''not scheduling reconnection attempt'',
        Quit 0 ''buildmaster reconfigured: bot disconnecting'',
        LogMsg ''not scheduling reconnection attempt'']"
    by (simp add: IrcStatusFactory_init_def shutdown_def buildProtocol_def clientConnectionLost_def
          clientConnectionFailed_def Let_def tags_or_def)
  have b: "snd (clientConnectionLost ?f) = [ScheduleReconnect (Some 5)]"
    by (simp add: IrcStatusFactory_init_def clientConnectionLost_def
          Throttled_clientConnectionLost_def tags_or_def)
  from shutdown_stops_reconnecting[of ?f ?evs]
  have "\<not> list_ex is_reconnect (snd (factory_run ?evs (fst (shutdown ?f))))"
    by blast
  with a b show ?thesis by blast
qed

section \<open>Configuration errors of the service\<close>

lemma py_in_bool:
  "py_in v [PyBool True, PyBool False] \<longleftrightarrow>
     v \<in> {PyBool True, PyBool False, PyInt 1, PyInt 0, PyFloat 1, PyFloat 0}"
  by (cases v) (auto simp: py_in_def py_eq_def)

text \<open>
  C8, as claimed, fails: the integer \<open>1\<close> is no boolean, yet \<open>1 in (True, False)\<close> holds,
  so \<open>IRC(..., allowForce=1)\<close> raises nothing and creates its client service.
\<close>

theorem IRC_init_accepts_int_flag:
  "PyInt 1 \<notin> {PyBool True, PyBool False}
   \<and> \<not> isl (snd (IRC_init False ((default_args ''irc.example.org'' ''bb'' [ChanName ''#dev''])
                                     \<lparr>a_allowForce := PyInt 1\<rparr>)))
   \<and> clients_created (fst (IRC_init False ((default_args ''irc.example.org'' ''bb'' [ChanName ''#dev''])
                                     \<lparr>a_allowForce := PyInt 1\<rparr>))) \<noteq> []"
  by (simp add: IRC_init_def default_args_def py_in_def py_eq_def Let_def)

text \<open>
  C8, amended. The constructor raises a configuration error that names \<open>allowForce\<close>
  when that value is equal to neither \<open>True\<close> nor \<open>False\<close>; failing that, one that names
  \<open>allowShutdown\<close> when that value is equal to neither; failing that, a \<open>RuntimeError\<close>
  when \<open>useSSL\<close> is true and the TLS library is missing. In every other case it returns
  the service, having created exactly one client, an SSL client if \<open>useSSL\<close> is true and
  a TCP client if not, and attached it last. Whenever it raises, no client has been
  created among the steps done. The flag values equal to \<open>True\<close> or \<open>False\<close> are \<open>True\<close>,
  \<open>False\<close>, \<open>1\<close>, \<open>0\<close>, \<open>1.0\<close> and \<open>0.0\<close>.
\<close>

theorem IRC_init_errors:
  "(\<not> py_in (a_allowForce a) [PyBool True, PyBool False] \<longrightarrow>
      snd (IRC_init have_ssl a) =
        Inl (ConfigErrors ''allowForce must be boolean, not '' (a_allowForce a)))
   \<and> (py_in (a_allowForce a) [PyBool True, PyBool False]
       \<and> \<not> py_in (a_allowShutdown a) [PyBool True, PyBool False] \<longrightarrow>
      snd (IRC_init have_ssl a) =
        Inl (ConfigErrors ''allowShutdown must be boolean, not '' (a_allowShutdown a)))
   \<and> (py_in (a_allowForce a) [PyBool True, PyBool False]
       \<and> py_in (a_allowShutdown a) [PyBool True, PyBool False]
       \<and> py_truthy (a_useSSL a) \<and> \<not> have_ssl \<longrightarrow>
      snd (IRC_init have_ssl a) = Inl (RuntimeError ''useSSL requires PyOpenSSL''))
   \<and> (py_in (a_allowForce a) [PyBool True, PyBool False]
       \<and> py_in (a_allowShutdown a) [PyBool True, PyBool False]
       \<and> (py_truthy (a_useSSL a) \<longrightarrow> have_ssl) \<longrightarrow>
      (\<exists>s. snd (IRC_init have_ssl a) = Inr s
           \<and> clients_created (fst (IRC_init have_ssl a)) = [irc_child s]
           \<and> last (fst (IRC_init have_ssl a)) = Client_attached (irc_child s)
           \<and> (\<exists>f. irc_child s =
                  (if py_truthy (a_useSSL a) then SSLClient (a_host a) (a_port a) f
                   else TCPClient (a_host a) (a_port a) f))))
   \<and> (isl (snd (IRC_init have_ssl a)) \<longrightarrow> clients_created (fst (IRC_init have_ssl a)) = [])
   \<and> (py_in v [PyBool True, PyBool False] \<longleftrightarrow>
        v \<in> {PyBool True, PyBool False, PyInt 1, PyInt 0, PyFloat 1, PyFloat 0})"
proof -
  have e1: "\<not> py_in (a_allowForce a) [PyBool True, PyBool False] \<longrightarrow>
      snd (IRC_init have_ssl a) =
        Inl (ConfigErrors ''allowForce must be boolean, not '' (a_allowForce a))"
    by (simp add: IRC_init_def config_error_def)
  have e2: "py_in (a_allowForce a) [PyBool True, PyBool False]
       \<and> \<not> py_in (a_allowShutdown a) [PyBool True, PyBool False] \<longrightarrow>
      snd (IRC_init have_ssl a) =
        Inl (ConfigErrors ''allowShutdown must be boolean, not '' (a_allowShutdown a))"
    by (simp add: IRC_init_def config_error_def)
  have e3: "py_in (a_allowForce a) [PyBool True, PyBool False]
       \<and> py_in (a_allowShutdown a) [PyBool True, PyBool False]
       \<and> py_truthy (a_useSSL a) \<and> \<not> have_ssl \<longrightarrow>
      snd (IRC_init have_ssl a) = Inl (RuntimeError ''useSSL requires PyOpenSSL'')"
    by (simp add: IRC_init_def Let_def)
  have e4: "py_in (a_allowForce a) [PyBool True, PyBool False]
       \<and> py_in (a_allowShutdown a) [PyBool True, PyBool False]
       \<and> (py_truthy (a_useSSL a) \<longrightarrow> have_ssl) \<longrightarrow>
      (\<exists>s. snd (IRC_init have_ssl a) = Inr s
           \<and> clients_created (fst (IRC_init have_ssl a)) = [irc_child s]
           \<and> last (fst (IRC_init have_ssl a)) = Client_attached (irc_child s)
           \<and> (\<exists>f. irc_child s =
                  (if py_truthy (a_useSSL a) then SSLClient (a_host a) (a_port a) f
                   else TCPClient (a_host a) (a_port a) f)))"
    by (simp add: IRC_init_def Let_def)
  have e5: "isl (snd (IRC_init have_ssl a)) \<longrightarrow> clients_created (fst (IRC_init have_ssl a)) = []"
    by (simp add: IRC_init_def Let_def)
  from e1 e2 e3 e4 e5 py_in_bool[of v] show ?thesis by (intro conjI)
qed

text \<open>
  A string and \<open>None\<close> as flags are rejected with a configuration error, \<open>useSSL\<close> without
  the TLS library raises a \<open>RuntimeError\<close> before any client is created, and the default
  arguments are accepted.
\<close>

theorem IRC_init_errors_witness:
  "IRC_init True ((default_args ''irc.example.org'' ''bb'' [ChanName ''#dev''])\<lparr>a_allowForce := PyStr ''yes''\<rparr>)
     = ([Base_init], Inl (ConfigErrors ''allowForce must be boolean, not '' (PyStr ''yes'')))
   \<and> snd (IRC_init True ((default_args ''irc.example.org'' ''bb'' [ChanName ''#dev''])\<lparr>a_allowShutdown := PyNone\<rparr>))
     = Inl (ConfigErrors ''allowShutdown must be boolean, not '' PyNone)
   \<and> snd (IRC_init False ((default_args ''irc.example.org'' ''bb'' [ChanName ''#dev''])\<lparr>a_useSSL := PyBool True\<rparr>))
     = Inl (RuntimeError ''useSSL requires PyOpenSSL'')
   \<and> clients_created (fst (IRC_init False ((default_args ''irc.example.org'' ''bb'' [ChanName ''#dev''])\<lparr>a_useSSL := PyBool True\<rparr>)))
     = []
   \<and> \<not> isl (snd (IRC_init True (default_args ''irc.example.org'' ''bb'' [ChanName ''#dev''])))"
proof -
  let ?a = "default_args ''irc.example.org'' ''bb'' [ChanName ''#dev'']"
  have f: "py_in (a_allowForce ?a) [PyBool True, PyBool False]"
          "py_in (a_allowShutdown ?a) [PyBool True, PyBool False]"
          "\<not> py_truthy (a_useSSL ?a)"
    by (simp_all add: default_args_def py_in_def py_eq_def)
  have w1: "IRC_init True (?a\<lparr>a_allowForce := PyStr ''yes''\<rparr>)
     = ([Base_init], Inl (ConfigErrors ''allowForce must be boolean, not '' (PyStr ''yes'')))"
    by (simp add: IRC_init_def default_args_def py_in_def py_eq_def config_error_def)
  have "py_in (a_allowForce (?a\<lparr>a_allowShutdown := PyNone\<rparr>)) [PyBool True, PyBool False]
        \<and> \<not> py_in (a_allowShutdown (?a\<lparr>a_allowShutdown := PyNone\<rparr>)) [PyBool True, PyBool False]"
    using f by (simp add: py_in_def py_eq_def)
  with IRC_init_errors[of "?a\<lparr>a_allowShutdown := PyNone\<rparr>" True PyNone]
  have w2: "snd (IRC_init True (?a\<lparr>a_allowShutdown := PyNone\<rparr>))
     = Inl (ConfigErrors ''allowShutdown must be boolean, not '' PyNone)"
    by simp
  have "py_in (a_allowForce (?a\<lparr>a_useSSL := PyBool True\<rparr>)) [PyBool True, PyBool False]
        \<and> py_in (a_allowShutdown (?a\<lparr>a_useSSL := PyBool True\<rparr>)) [PyBool True, PyBool False]
        \<and> py_truthy (a_useSSL (?a\<lparr>a_useSSL := PyBool True\<rparr>)) \<and> \<not> False"
    using f by simp
  with IRC_init_errors[of "?a\<lparr>a_useSSL := PyBool True\<rparr>" False PyNone]
  have w3: "snd (IRC_init False (?a\<lparr>a_useSSL := PyBool True\<rparr>))
     = Inl (RuntimeError ''useSSL requires PyOpenSSL'')"
    by blast
  then have "isl (snd (IRC_init False (?a\<lparr>a_useSSL := PyBool True\<rparr>)))"
    by simp
  with IRC_init_errors[of "?a\<lparr>a_useSSL := PyBool True\<rparr>" False PyNone]
  have w4: "clients_created (fst (IRC_init False (?a\<lparr>a_useSSL := PyBool True\<rparr>))) = []"
    by blast
  have "py_in (a_allowForce ?a) [PyBool True, PyBool False]
        \<and> py_in (a_allowShutdown ?a) [PyBool True, PyBool False]
        \<and> (py_truthy (a_useSSL ?a) \<longrightarrow> True)"
    using f by simp
  with IRC_init_errors[of ?a True PyNone]
  have "\<exists>s. snd (IRC_init True ?a) = Inr s"
    by blast
  then have w5: "\<not> isl (snd (IRC_init True ?a))"
    by auto
  from w1 w2 w3 w4 w5 show ?thesis by (intro conjI)
qed

end
